theory Spec2Isabelle
  imports Main
begin

section \<open>Python values and the operations the harness applies to them\<close>

text \<open>
  A Python float is a double: finite doubles are \<open>m * 2 ^ e\<close> for integers \<open>m\<close>, \<open>e\<close>;
  \<open>json.loads\<close> also yields the three non-finite doubles. Python compares a float with
  an int by exact value, which the comparison functions below do.
\<close>

datatype pyfloat = Finite int int | PosInf | NegInf | NaN

text \<open>
  The values \<open>json.loads\<close> returns. A dict is an association list in insertion order; its
  keys are distinct, and a lookup takes the first entry of a key.
\<close>

datatype json =
    JNull
  | JBool bool
  | JInt int
  | JFloat pyfloat
  | JStr string
  | JList "json list"
  | JObj "(string \<times> json) list"

text \<open>
  The exceptions that occur. \<open>NotConnected n\<close> is the plain
  \<open>Exception("Player n is not connected")\<close> of \<open>send_message\<close>; \<open>OtherException\<close> is any
  further subclass of \<open>Exception\<close>. The last three are \<open>BaseException\<close>s that
  \<open>except Exception\<close> does not catch.
\<close>

datatype exc =
    ConnectionClosed
  | NotConnected string
  | JSONDecodeError
  | AttributeError
  | TypeError
  | OtherException string
  | KeyboardInterrupt
  | CancelledError
  | SystemExit

fun is_Exception :: "exc \<Rightarrow> bool" where
  "is_Exception KeyboardInterrupt = False"
| "is_Exception CancelledError = False"
| "is_Exception SystemExit = False"
| "is_Exception _ = True"

datatype outcome = Ok | Raised exc

text \<open>\<open>bool(x)\<close>\<close>

fun truthy :: "json \<Rightarrow> bool" where
  "truthy JNull = False"
| "truthy (JBool b) = b"
| "truthy (JInt i) = (i \<noteq> 0)"
| "truthy (JFloat (Finite m e)) = (m \<noteq> 0)"
| "truthy (JFloat _) = True"
| "truthy (JStr s) = (s \<noteq> [])"
| "truthy (JList xs) = (xs \<noteq> [])"
| "truthy (JObj kvs) = (kvs \<noteq> [])"

fun float_le_int :: "pyfloat \<Rightarrow> int \<Rightarrow> bool" where
  "float_le_int (Finite m e) n =
     (if 0 \<le> e then m * 2 ^ nat e \<le> n else m \<le> n * 2 ^ nat (- e))"
| "float_le_int PosInf n = False"
| "float_le_int NegInf n = True"
| "float_le_int NaN n = False"

fun float_gt_int :: "pyfloat \<Rightarrow> int \<Rightarrow> bool" where
  "float_gt_int (Finite m e) n =
     (if 0 \<le> e then n < m * 2 ^ nat e else n * 2 ^ nat (- e) < m)"
| "float_gt_int PosInf n = True"
| "float_gt_int NegInf n = False"
| "float_gt_int NaN n = False"

fun float_eq_int :: "pyfloat \<Rightarrow> int \<Rightarrow> bool" where
  "float_eq_int (Finite m e) n =
     (if 0 \<le> e then m * 2 ^ nat e = n else m = n * 2 ^ nat (- e))"
| "float_eq_int _ n = False"

text \<open>\<open>x <= n\<close> and \<open>x > n\<close> for an int literal \<open>n\<close>: TypeError unless \<open>x\<close> is a number.\<close>

fun py_le_int :: "json \<Rightarrow> int \<Rightarrow> exc + bool" where
  "py_le_int (JBool b) n = Inr ((if b then 1 else 0) \<le> n)"
| "py_le_int (JInt i) n = Inr (i \<le> n)"
| "py_le_int (JFloat f) n = Inr (float_le_int f n)"
| "py_le_int _ n = Inl TypeError"

fun py_gt_int :: "json \<Rightarrow> int \<Rightarrow> exc + bool" where
  "py_gt_int (JBool b) n = Inr (n < (if b then 1 else 0))"
| "py_gt_int (JInt i) n = Inr (n < i)"
| "py_gt_int (JFloat f) n = Inr (float_gt_int f n)"
| "py_gt_int _ n = Inl TypeError"

text \<open>\<open>a and b\<close> on comparison results: \<open>b\<close> is not evaluated when \<open>a\<close> is false.\<close>

fun py_and :: "exc + bool \<Rightarrow> exc + bool \<Rightarrow> exc + bool" where
  "py_and (Inl e) b = Inl e"
| "py_and (Inr False) b = Inr False"
| "py_and (Inr True) b = b"

text \<open>\<open>x.get(key, default)\<close>: AttributeError unless \<open>x\<close> is a dict.\<close>

fun dict_get :: "json \<Rightarrow> string \<Rightarrow> json \<Rightarrow> exc + json" where
  "dict_get (JObj kvs) key dflt =
     Inr (case map_of kvs key of None \<Rightarrow> dflt | Some v \<Rightarrow> v)"
| "dict_get _ key dflt = Inl AttributeError"

text \<open>\<open>len(x)\<close>\<close>

fun py_len :: "json \<Rightarrow> exc + nat" where
  "py_len (JStr s) = Inr (length s)"
| "py_len (JList xs) = Inr (length xs)"
| "py_len (JObj kvs) = Inr (length kvs)"
| "py_len _ = Inl TypeError"

text \<open>
  \<open>seat == player.seat\<close>, a decoded value against an \<open>Optional[int]\<close>: \<open>None == None\<close>,
  and numbers (bools included) compare by value.
\<close>

fun seat_eq :: "json \<Rightarrow> int option \<Rightarrow> bool" where
  "seat_eq JNull None = True"
| "seat_eq (JBool b) (Some n) = ((if b then 1 else 0) = n)"
| "seat_eq (JInt i) (Some n) = (i = n)"
| "seat_eq (JFloat f) (Some n) = float_eq_int f n"
| "seat_eq _ _ = False"

section \<open>The wire and the connection\<close>

text \<open>
  A frame is the text that travels on the connection. \<open>json.loads\<close> and \<open>json.dumps\<close>
  are library functions; a frame is represented by what \<open>json.loads\<close> makes of it: the
  decoded value, or a decoding error for text that is not JSON.
\<close>

datatype frame = Text json | NotJson string

fun json_loads :: "frame \<Rightarrow> exc + json" where
  "json_loads (Text v) = Inr v"
| "json_loads (NotJson s) = Inl JSONDecodeError"

definition json_dumps :: "json \<Rightarrow> frame" where
  "json_dumps v = Text v"

text \<open>
  The connection object of the websockets library: the frames sent on it so far and
  whether it has been closed. \<open>send\<close> on a closed connection raises ConnectionClosed;
  \<open>close\<close> is idempotent.
\<close>

record WebSocket =
  ws_sent :: "frame list"
  ws_closed :: bool

definition ws_send :: "WebSocket \<Rightarrow> frame \<Rightarrow> exc + WebSocket" where
  "ws_send w f = (if ws_closed w then Inl ConnectionClosed
                  else Inr (w\<lparr>ws_sent := ws_sent w @ [f]\<rparr>))"

definition ws_close :: "WebSocket \<Rightarrow> WebSocket" where
  "ws_close w = w\<lparr>ws_closed := True\<rparr>"

text \<open>
  What the \<open>async for\<close> over the connection yields next: a frame, an exception raised
  by the receive, or the end of the iteration.
\<close>

datatype recv_event = Message frame | RecvRaises exc | StreamEnd

section \<open>The harness state\<close>

record TestPlayer =
  name :: string
  websocket :: "WebSocket option"
  seat :: "int option"
  chips :: pyfloat
  connected :: bool

text \<open>The lines written to the module's logger, by the statement that writes them.\<close>

datatype log_entry =
    LogConnected string
  | LogConnectFailed string exc
  | LogConnectionClosed string
  | LogListenError string exc
  | LogReceived string json
  | LogGameState nat json
  | LogTurn string
  | LogHandFinished json
  | LogSent string string
  | LogCleaningUp
  | LogStarting
  | LogInterrupted
  | LogSuiteFailed exc
  | LogResults "string list"

record PokerServerTest =
  server_url :: string
  players :: "(string \<times> TestPlayer) list"
  game_state :: json
  test_results :: "string list"
  running :: bool
  logged :: "log_entry list"

definition init :: "string \<Rightarrow> PokerServerTest" where
  "init url = \<lparr>server_url = url, players = [], game_state = JObj [],
               test_results = [], running = True, logged = []\<rparr>"

definition logger :: "log_entry \<Rightarrow> PokerServerTest \<Rightarrow> PokerServerTest" where
  "logger l t = t\<lparr>logged := logged t @ [l]\<rparr>"

text \<open>
  A method taking \<open>self\<close> and \<open>player\<close> mutates both objects: it is a function from the
  pair to the updated pair and the way it ended. The mutations made before an exception
  stay.
\<close>

type_synonym session = "PokerServerTest \<times> TestPlayer"

section \<open>Sending\<close>

text \<open>\<open>data or {}\<close>\<close>

fun data_or_empty :: "(string \<times> json) list option \<Rightarrow> json" where
  "data_or_empty None = JObj []"
| "data_or_empty (Some kvs) = JObj kvs"

fun send_message ::
  "session \<Rightarrow> string \<Rightarrow> (string \<times> json) list option \<Rightarrow> session \<times> outcome" where
  "send_message (t, player) message_type data =
     (if \<not> connected player \<or> websocket player = None
      then ((t, player), Raised (NotConnected (name player)))
      else case websocket player of
        None \<Rightarrow> ((t, player), Raised (NotConnected (name player)))
      | Some w \<Rightarrow>
          (let message = JObj [(''messageType'', JStr message_type),
                               (''data'', data_or_empty data)]
           in case ws_send w (json_dumps message) of
                Inl e \<Rightarrow> ((t, player), Raised e)
              | Inr w' \<Rightarrow>
                  ((logger (LogSent (name player) message_type) t,
                    player\<lparr>websocket := Some w'\<rparr>), Ok)))"

definition send_action ::
  "session \<Rightarrow> string \<Rightarrow> (string \<times> json) list option \<Rightarrow> session \<times> outcome" where
  "send_action s action data = send_message s action data"

section \<open>The decision procedure\<close>

text \<open>\<open>auto_play\<close>; the half-second sleep has no effect on the state.\<close>

fun auto_play :: "session \<Rightarrow> json \<Rightarrow> session \<times> outcome" where
  "auto_play s move_data =
     (case dict_get move_data ''canCheck'' (JBool False) of
        Inl e \<Rightarrow> (s, Raised e)
      | Inr can_check \<Rightarrow>
     (case dict_get move_data ''callAmount'' (JInt 0) of
        Inl e \<Rightarrow> (s, Raised e)
      | Inr call_amount \<Rightarrow>
     (case dict_get move_data ''minRaiseToTotalBet'' (JInt 0) of
        Inl e \<Rightarrow> (s, Raised e)
      | Inr min_raise \<Rightarrow>
     (if truthy can_check then send_action s ''check'' None
      else case py_le_int call_amount 50 of
        Inl e \<Rightarrow> (s, Raised e)
      | Inr True \<Rightarrow> send_action s ''call'' None
      | Inr False \<Rightarrow>
          (case py_and (py_le_int call_amount 100) (py_gt_int min_raise 0) of
             Inl e \<Rightarrow> (s, Raised e)
           | Inr True \<Rightarrow> send_action s ''raise'' (Some [(''amount'', min_raise)])
           | Inr False \<Rightarrow> send_action s ''fold'' None)))))"

section \<open>Dispatch of inbound messages\<close>

fun handle_server_message :: "session \<Rightarrow> json \<Rightarrow> session \<times> outcome" where
  "handle_server_message (t, player) message =
     (case dict_get message ''messageType'' (JStr []) of
        Inl e \<Rightarrow> ((t, player), Raised e)
      | Inr message_type \<Rightarrow>
     (case dict_get message ''data'' (JObj []) of
        Inl e \<Rightarrow> ((t, player), Raised e)
      | Inr data \<Rightarrow>
     (let t1 = logger (LogReceived (name player) message_type) t in
      if message_type = JStr ''gameState'' then
        (let t2 = t1\<lparr>game_state := data\<rparr> in
         case dict_get data ''players'' (JObj []) of
           Inl e \<Rightarrow> ((t2, player), Raised e)
         | Inr ps \<Rightarrow>
        (case py_len ps of
           Inl e \<Rightarrow> ((t2, player), Raised e)
         | Inr n \<Rightarrow>
        (case dict_get data ''pot'' (JInt 0) of
           Inl e \<Rightarrow> ((t2, player), Raised e)
         | Inr pot \<Rightarrow> ((logger (LogGameState n pot) t2, player), Ok))))
      else if message_type = JStr ''onmove'' then
        (case dict_get data ''seat'' JNull of
           Inl e \<Rightarrow> ((t1, player), Raised e)
         | Inr seat_v \<Rightarrow>
             if seat_eq seat_v (seat player)
             then auto_play (logger (LogTurn (name player)) t1, player) data
             else ((t1, player), Ok))
      else if message_type = JStr ''handWinnings'' then
        ((logger (LogHandFinished data) t1, player), Ok)
      else ((t1, player), Ok))))"

section \<open>The listener loop\<close>

text \<open>
  The body of the \<open>try\<close>: the \<open>async for\<close> over the connection. It stops where the
  events known so far end (the task is suspended in the receive), where the iteration
  ends, or where the receive, \<open>json.loads\<close> or the handler raises.
\<close>

datatype loop_exit = Pending | Exhausted | Threw exc

fun listen_loop :: "session \<Rightarrow> recv_event list \<Rightarrow> session \<times> loop_exit" where
  "listen_loop s [] = (s, Pending)"
| "listen_loop s (StreamEnd # evs) = (s, Exhausted)"
| "listen_loop s (RecvRaises e # evs) = (s, Threw e)"
| "listen_loop s (Message f # evs) =
     (case json_loads f of
        Inl e \<Rightarrow> (s, Threw e)
      | Inr data \<Rightarrow>
          (case handle_server_message s data of
             (s', Raised e) \<Rightarrow> (s', Threw e)
           | (s', Ok) \<Rightarrow> listen_loop s' evs))"

text \<open>The state of the listener task: still waiting for a frame, or finished.\<close>

datatype task = Suspended | Finished outcome

fun listen_for_messages :: "session \<Rightarrow> recv_event list \<Rightarrow> session \<times> task" where
  "listen_for_messages s events =
     (case listen_loop s events of
        (s', Pending) \<Rightarrow> (s', Suspended)
      | (s', Exhausted) \<Rightarrow> (s', Finished Ok)
      | ((t, player), Threw e) \<Rightarrow>
          if e = ConnectionClosed then
            ((logger (LogConnectionClosed (name player)) t,
              player\<lparr>connected := False\<rparr>), Finished Ok)
          else if is_Exception e then
            ((logger (LogListenError (name player) e) t, player), Finished Ok)
          else ((t, player), Finished (Raised e)))"

section \<open>Operations of the orchestrator on one agent\<close>

text \<open>\<open>self.players[key] = value\<close>\<close>

fun dict_set :: "(string \<times> 'v) list \<Rightarrow> string \<Rightarrow> 'v \<Rightarrow> (string \<times> 'v) list" where
  "dict_set [] key v = [(key, v)]"
| "dict_set ((k, x) # rest) key v =
     (if k = key then (k, v) # rest else (k, x) # dict_set rest key v)"

text \<open>
  \<open>create_player\<close>; the third argument is what \<open>websockets.connect\<close> does: it returns a
  connection or raises. The listener task the method starts is \<open>listen_for_messages\<close>
  on the returned player.
\<close>

fun create_player ::
  "PokerServerTest \<Rightarrow> string \<Rightarrow> exc + WebSocket \<Rightarrow> PokerServerTest \<times> (exc + TestPlayer)" where
  "create_player t player_name (Inr w) =
     (let player = \<lparr>name = player_name, websocket = Some w, seat = None,
                     chips = Finite 1000 0, connected = True\<rparr>
      in (logger (LogConnected player_name)
            (t\<lparr>players := dict_set (players t) player_name player\<rparr>), Inr player))"
| "create_player t player_name (Inl e) =
     (if is_Exception e then (logger (LogConnectFailed player_name e) t, Inl e)
      else (t, Inl e))"

fun register_player :: "session \<Rightarrow> session \<times> outcome" where
  "register_player (t, player) =
     send_message (t, player) ''registerPlayer'' (Some [(''name'', JStr (name player))])"

fun take_seat :: "session \<Rightarrow> int \<Rightarrow> session \<times> outcome" where
  "take_seat s n =
     (case send_message s ''takeSeat'' (Some [(''seat'', JInt n)]) of
        ((t', player'), Ok) \<Rightarrow> ((t', player'\<lparr>seat := Some n\<rparr>), Ok)
      | (s', Raised e) \<Rightarrow> (s', Raised e))"

definition start_game :: "session \<Rightarrow> session \<times> outcome" where
  "start_game s = send_message s ''startGame'' None"

text \<open>
  The methods that act on an agent that already exists, as one type, and a run of them
  on the same agent (an exception ends the method, not the run).
\<close>

datatype player_op =
    Listen "recv_event list"
  | Handle json
  | AutoPlay json
  | Send string "(string \<times> json) list option"
  | Register
  | TakeSeat int
  | StartGame
  | CloseSocket

fun close_socket :: "TestPlayer \<Rightarrow> TestPlayer" where
  "close_socket player =
     (case websocket player of
        None \<Rightarrow> player
      | Some w \<Rightarrow> player\<lparr>websocket := Some (ws_close w)\<rparr>)"

fun apply_op :: "session \<Rightarrow> player_op \<Rightarrow> session" where
  "apply_op s (Listen events) = fst (listen_for_messages s events)"
| "apply_op s (Handle message) = fst (handle_server_message s message)"
| "apply_op s (AutoPlay move_data) = fst (auto_play s move_data)"
| "apply_op s (Send message_type data) = fst (send_message s message_type data)"
| "apply_op s Register = fst (register_player s)"
| "apply_op s (TakeSeat n) = fst (take_seat s n)"
| "apply_op s StartGame = fst (start_game s)"
| "apply_op (t, player) CloseSocket = (t, close_socket player)"

fun apply_ops :: "session \<Rightarrow> player_op list \<Rightarrow> session" where
  "apply_ops s [] = s"
| "apply_ops s (x # xs) = apply_ops (apply_op s x) xs"

section \<open>Teardown and the scenario run\<close>

text \<open>The loop of \<open>cleanup\<close> over \<open>self.players.values()\<close>.\<close>

fun close_connected :: "(string \<times> TestPlayer) list \<Rightarrow> (string \<times> TestPlayer) list" where
  "close_connected [] = []"
| "close_connected ((k, player) # rest) =
     (k, if connected player \<and> websocket player \<noteq> None then close_socket player else player)
       # close_connected rest"

definition cleanup :: "PokerServerTest \<Rightarrow> PokerServerTest" where
  "cleanup t = (let t1 = logger LogCleaningUp t
                in t1\<lparr>players := close_connected (players t1)\<rparr>)"

text \<open>
  A scenario step (\<open>test_basic_connection\<close>, \<open>test_player_registration\<close>, ...) changes
  the harness and returns or raises; what it does depends on the server and on the
  listener tasks that run while it waits, so \<open>run_all_tests\<close> takes the steps it awaits
  in order as an argument. The \<open>try\<close> body stops at the first step that raises.
\<close>

type_synonym test_step = "PokerServerTest \<Rightarrow> PokerServerTest \<times> outcome"

fun run_steps :: "test_step list \<Rightarrow> PokerServerTest \<Rightarrow> PokerServerTest \<times> outcome" where
  "run_steps [] t = (t, Ok)"
| "run_steps (step # steps) t =
     (case step t of
        (t', Ok) \<Rightarrow> run_steps steps t'
      | (t', Raised e) \<Rightarrow> (t', Raised e))"

definition print_results :: "PokerServerTest \<Rightarrow> PokerServerTest" where
  "print_results t = logger (LogResults (test_results t)) t"

definition run_all_tests :: "test_step list \<Rightarrow> PokerServerTest \<Rightarrow> PokerServerTest \<times> outcome" where
  "run_all_tests tests t =
     (case run_steps tests (logger LogStarting t) of
        (t1, Ok) \<Rightarrow> (print_results (cleanup t1), Ok)
      | (t1, Raised e) \<Rightarrow>
          if e = KeyboardInterrupt
          then (print_results (cleanup (logger LogInterrupted t1)), Ok)
          else if is_Exception e
          then (print_results (cleanup (logger (LogSuiteFailed e) t1)), Ok)
          else (cleanup t1, Raised e))"

section \<open>The decision rule as the specification words it\<close>

text \<open>
  A Turn Prompt with typed fields, the four-branch rule over two thresholds, and the
  envelope of the chosen action. These follow the specification, to be compared with
  \<open>auto_play\<close>.
\<close>

datatype pynum = PInt int | PFloat pyfloat

fun num_le :: "pynum \<Rightarrow> int \<Rightarrow> bool" where
  "num_le (PInt i) n = (i \<le> n)"
| "num_le (PFloat f) n = float_le_int f n"

fun num_gt :: "pynum \<Rightarrow> int \<Rightarrow> bool" where
  "num_gt (PInt i) n = (n < i)"
| "num_gt (PFloat f) n = float_gt_int f n"

fun num_json :: "pynum \<Rightarrow> json" where
  "num_json (PInt i) = JInt i"
| "num_json (PFloat f) = JFloat f"

record turn_prompt =
  tp_seat :: int
  can_check :: bool
  call_amount :: pynum
  min_raise_to_total_bet :: pynum

datatype action = Check | Call | Raise_to pynum | Fold

definition SMALL_CALL_THRESHOLD :: int where
  "SMALL_CALL_THRESHOLD = 50"

definition RAISE_ELIGIBLE_THRESHOLD :: int where
  "RAISE_ELIGIBLE_THRESHOLD = 100"

definition decision_rule :: "int \<Rightarrow> int \<Rightarrow> turn_prompt \<Rightarrow> action" where
  "decision_rule small_call raise_eligible tp =
     (if can_check tp then Check
      else if num_le (call_amount tp) small_call then Call
      else if num_le (call_amount tp) raise_eligible \<and> num_gt (min_raise_to_total_bet tp) 0
      then Raise_to (min_raise_to_total_bet tp)
      else Fold)"

fun action_type :: "action \<Rightarrow> string" where
  "action_type Check = ''check''"
| "action_type Call = ''call''"
| "action_type (Raise_to n) = ''raise''"
| "action_type Fold = ''fold''"

fun action_data :: "action \<Rightarrow> (string \<times> json) list option" where
  "action_data (Raise_to n) = Some [(''amount'', num_json n)]"
| "action_data _ = None"

text \<open>The envelope \<open>{"messageType": type, "data": payload}\<close>.\<close>

definition envelope :: "string \<Rightarrow> json \<Rightarrow> json" where
  "envelope message_type payload = JObj [(''messageType'', JStr message_type), (''data'', payload)]"

definition action_envelope :: "action \<Rightarrow> json" where
  "action_envelope a = envelope (action_type a) (data_or_empty (action_data a))"

text \<open>The payload of an \<open>onmove\<close> message carries the fields of a Turn Prompt.\<close>

definition carries :: "(string \<times> json) list \<Rightarrow> turn_prompt \<Rightarrow> bool" where
  "carries d tp =
     (map_of d ''seat'' = Some (JInt (tp_seat tp)) \<and>
      map_of d ''canCheck'' = Some (JBool (can_check tp)) \<and>
      map_of d ''callAmount'' = Some (num_json (call_amount tp)) \<and>
      map_of d ''minRaiseToTotalBet'' = Some (num_json (min_raise_to_total_bet tp)))"

definition onmove_data :: "turn_prompt \<Rightarrow> (string \<times> json) list" where
  "onmove_data tp =
     [(''seat'', JInt (tp_seat tp)), (''canCheck'', JBool (can_check tp)),
      (''callAmount'', num_json (call_amount tp)),
      (''minRaiseToTotalBet'', num_json (min_raise_to_total_bet tp))]"

text \<open>The frames an agent has sent.\<close>

fun frames_sent :: "TestPlayer \<Rightarrow> frame list" where
  "frames_sent player = (case websocket player of None \<Rightarrow> [] | Some w \<Rightarrow> ws_sent w)"

text \<open>The type and the payload of an inbound message, as \<open>handle_server_message\<close> reads them.\<close>

fun message_type_of :: "json \<Rightarrow> json option" where
  "message_type_of (JObj kvs) = map_of kvs ''messageType''"
| "message_type_of _ = None"

fun payload_of :: "json \<Rightarrow> json" where
  "payload_of (JObj kvs) = (case map_of kvs ''data'' of None \<Rightarrow> JObj [] | Some v \<Rightarrow> v)"
| "payload_of _ = JObj []"

fun is_object :: "json \<Rightarrow> bool" where
  "is_object (JObj kvs) = True"
| "is_object _ = False"

text \<open>
  The calls of \<open>handle_server_message\<close> that the agents' listeners make on the shared
  harness object, in the order they happen: each delivery is a message and the agent
  whose listener received it.
\<close>

fun deliver_all :: "PokerServerTest \<Rightarrow> (TestPlayer \<times> json) list \<Rightarrow> PokerServerTest" where
  "deliver_all t [] = t"
| "deliver_all t ((player, message) # rest) =
     deliver_all (fst (fst (handle_server_message (t, player) message))) rest"

section \<open>Example values\<close>

text \<open>
  A harness as \<open>main\<close> creates it, an open connection, the agent Alice connected on it and
  seated at seat 1, Bob seated at seat 2, and a few messages.
\<close>

definition harness0 :: PokerServerTest where
  "harness0 = init ''ws://localhost:8888''"

definition open_socket :: WebSocket where
  "open_socket = \<lparr>ws_sent = [], ws_closed = False\<rparr>"

definition alice :: TestPlayer where
  "alice = \<lparr>name = ''Alice'', websocket = Some open_socket, seat = Some 1,
            chips = Finite 1000 0, connected = True\<rparr>"

text \<open>
  Carol after \<open>test_basic_connection\<close> has closed her connection: the method calls
  \<open>player.websocket.close()\<close> and leaves the flag as it was.
\<close>

definition carol :: TestPlayer where
  "carol = \<lparr>name = ''Carol'', websocket = Some (ws_close open_socket), seat = None,
            chips = Finite 1000 0, connected = True\<rparr>"

definition bob :: TestPlayer where
  "bob = \<lparr>name = ''Bob'', websocket = Some open_socket, seat = Some 2,
          chips = Finite 1000 0, connected = True\<rparr>"

definition prompt_C :: turn_prompt where
  "prompt_C = \<lparr>tp_seat = 1, can_check = False, call_amount = PInt 75,
               min_raise_to_total_bet = PInt 150\<rparr>"

definition onmove_B :: json where
  "onmove_B = JObj [(''messageType'', JStr ''onmove''),
                    (''data'', JObj [(''seat'', JInt 1), (''canCheck'', JBool True),
                                     (''callAmount'', JInt 0),
                                     (''minRaiseToTotalBet'', JInt 0)])]"

definition check_envelope :: json where
  "check_envelope = JObj [(''messageType'', JStr ''check''), (''data'', JObj [])]"

definition raise_150_envelope :: json where
  "raise_150_envelope = JObj [(''messageType'', JStr ''raise''),
                              (''data'', JObj [(''amount'', JInt 150)])]"

definition snapshot_1 :: json where
  "snapshot_1 = JObj [(''players'', JObj [(''1'', JStr ''Alice'')]), (''pot'', JInt 30)]"

definition snapshot_2 :: json where
  "snapshot_2 = JObj [(''players'', JObj []), (''pot'', JInt 0)]"

definition game_state_1 :: json where
  "game_state_1 = JObj [(''messageType'', JStr ''gameState''), (''data'', snapshot_1)]"

definition game_state_2 :: json where
  "game_state_2 = JObj [(''messageType'', JStr ''gameState''), (''data'', snapshot_2)]"

definition chat_message :: json where
  "chat_message = JObj [(''messageType'', JStr ''chat''), (''data'', JObj [])]"

text \<open>
  Three scenario steps: one that connects Alice, one that is interrupted, and one that
  would empty the registry if it ran.
\<close>

definition step_connect :: test_step where
  "step_connect t = (t\<lparr>players := dict_set (players t) ''Alice'' alice\<rparr>, Ok)"

definition step_interrupted :: test_step where
  "step_interrupted t = (t, Raised KeyboardInterrupt)"

definition step_forget :: test_step where
  "step_forget t = (t\<lparr>players := []\<rparr>, Ok)"

section \<open>Facts about sending and the decision procedure\<close>

lemma py_and_Inr [simp]: "py_and (Inr a) (Inr b) = Inr (a \<and> b)"
  by (cases a) simp_all

lemma send_message_open:
  assumes "connected player" "websocket player = Some w" "\<not> ws_closed w"
  shows "send_message (t, player) mt data =
           ((logger (LogSent (name player) mt) t,
             player\<lparr>websocket := Some (w\<lparr>ws_sent := ws_sent w @
               [json_dumps (envelope mt (data_or_empty data))]\<rparr>)\<rparr>), Ok)"
  using assms by (simp add: ws_send_def envelope_def)

text \<open>
  On a connection that was closed while the flag still says connected, the library's
  ConnectionClosed is what the caller sees, and nothing is sent.
\<close>

lemma send_message_closed_socket:
  assumes "connected player" "websocket player = Some w" "ws_closed w"
  shows "send_message (t, player) mt data = ((t, player), Raised ConnectionClosed)"
  using assms by (simp add: ws_send_def)

text \<open>
  The agent a successful \<open>create_player\<close> returns, on which the listener is started, is
  marked connected and holds the connection; it is the entry of its name in the registry.
\<close>

lemma create_player_connected:
  assumes "create_player t player_name (Inr w) = (t', Inr player)"
  shows "connected player \<and> websocket player = Some w \<and> seat player = None \<and>
         name player = player_name \<and> map_of (players t') player_name = Some player"
proof -
  have stored: "map_of (dict_set ps k v) k = Some v" for ps :: "(string \<times> TestPlayer) list" and k v
    by (induction ps k v rule: dict_set.induct) auto
  show ?thesis
    using assms stored by (auto simp: logger_def Let_def)
qed

lemma send_message_connected [simp]:
  "connected (snd (fst (send_message s mt d))) = connected (snd s)"
  by (cases s) (auto simp: ws_send_def split: option.splits sum.splits)

lemma auto_play_connected [simp]:
  "connected (snd (fst (auto_play s m))) = connected (snd s)"
  by (auto simp: send_action_def split: sum.splits bool.splits)

lemma handle_connected [simp]:
  "connected (snd (fst (handle_server_message s m))) = connected (snd s)"
  by (cases s) (auto simp: Let_def simp del: auto_play.simps split: sum.splits)

text \<open>
  On a payload that carries a Turn Prompt no comparison raises, and the branch taken is
  the one the rule names at the thresholds 50 and 100.
\<close>

lemma auto_play_decision:
  assumes "carries d tp"
  shows "auto_play s (JObj d) =
           send_action s
             (action_type (decision_rule SMALL_CALL_THRESHOLD RAISE_ELIGIBLE_THRESHOLD tp))
             (action_data (decision_rule SMALL_CALL_THRESHOLD RAISE_ELIGIBLE_THRESHOLD tp))"
proof (cases "can_check tp")
  case True
  then show ?thesis
    using assms by (simp add: carries_def decision_rule_def)
next
  case False
  show ?thesis
  proof (cases "call_amount tp")
    case (PInt i)
    then show ?thesis
      using assms False
      by (cases "min_raise_to_total_bet tp")
         (auto simp: carries_def decision_rule_def SMALL_CALL_THRESHOLD_def
            RAISE_ELIGIBLE_THRESHOLD_def)
  next
    case (PFloat f)
    then show ?thesis
      using assms False
      by (cases "min_raise_to_total_bet tp")
         (auto simp: carries_def decision_rule_def SMALL_CALL_THRESHOLD_def
            RAISE_ELIGIBLE_THRESHOLD_def)
  qed
qed

lemma carries_onmove_data: "carries (onmove_data tp) tp"
  by (simp add: carries_def onmove_data_def)

section \<open>The decision procedure\<close>

text \<open>
  C1. For every Turn Prompt, \<open>auto_play\<close> on a payload that carries it takes the branch of
  the four-branch rule at the thresholds 50 and 100: check when \<open>can_check\<close>; else call
  when \<open>call_amount <= 50\<close>; else raise to \<open>min_raise_to_total_bet\<close> when
  \<open>call_amount <= 100\<close> and \<open>min_raise_to_total_bet > 0\<close>; else fold. The action chosen
  is the one handed to \<open>send_action\<close>, with the amount as the data of a raise.
\<close>

theorem auto_play_four_branch_rule:
  assumes "carries d tp"
  shows "auto_play s (JObj d) =
           send_action s
             (action_type (decision_rule SMALL_CALL_THRESHOLD RAISE_ELIGIBLE_THRESHOLD tp))
             (action_data (decision_rule SMALL_CALL_THRESHOLD RAISE_ELIGIBLE_THRESHOLD tp)) \<and>
         decision_rule SMALL_CALL_THRESHOLD RAISE_ELIGIBLE_THRESHOLD tp =
           (if can_check tp then Check
            else if num_le (call_amount tp) 50 then Call
            else if num_le (call_amount tp) 100 \<and> num_gt (min_raise_to_total_bet tp) 0
            then Raise_to (min_raise_to_total_bet tp)
            else Fold)"
proof
  show "auto_play s (JObj d) =
           send_action s
             (action_type (decision_rule SMALL_CALL_THRESHOLD RAISE_ELIGIBLE_THRESHOLD tp))
             (action_data (decision_rule SMALL_CALL_THRESHOLD RAISE_ELIGIBLE_THRESHOLD tp))"
    using assms by (rule auto_play_decision)
next
  show "decision_rule SMALL_CALL_THRESHOLD RAISE_ELIGIBLE_THRESHOLD tp =
           (if can_check tp then Check
            else if num_le (call_amount tp) 50 then Call
            else if num_le (call_amount tp) 100 \<and> num_gt (min_raise_to_total_bet tp) 0
            then Raise_to (min_raise_to_total_bet tp)
            else Fold)"
    by (simp add: decision_rule_def SMALL_CALL_THRESHOLD_def RAISE_ELIGIBLE_THRESHOLD_def)
qed

theorem auto_play_four_branch_rule_witness:
  "carries (onmove_data prompt_C) prompt_C \<and>
   auto_play (harness0, alice) (JObj (onmove_data prompt_C)) =
     send_action (harness0, alice) ''raise'' (Some [(''amount'', JInt 150)])"
proof -
  have h: "carries (onmove_data prompt_C) prompt_C"
    by (rule carries_onmove_data)
  have r: "decision_rule SMALL_CALL_THRESHOLD RAISE_ELIGIBLE_THRESHOLD prompt_C =
             Raise_to (PInt 150)"
    by (simp add: decision_rule_def SMALL_CALL_THRESHOLD_def RAISE_ELIGIBLE_THRESHOLD_def
          prompt_C_def)
  show ?thesis
    using h auto_play_four_branch_rule [OF h, of "(harness0, alice)"] r by simp
qed

text \<open>
  C2. An agent seated at seat 1, connected on an open connection, whose listener receives
  the frame \<open>{"messageType":"onmove","data":{"seat":1,"canCheck":true,"callAmount":0,
  "minRaiseToTotalBet":0}}\<close> sends exactly one frame, \<open>{"messageType":"check","data":{}}\<close>,
  and goes on waiting for the next frame.
\<close>

theorem scenario_B_sends_check:
  assumes "seat player = Some 1"
      and "connected player" "websocket player = Some w" "\<not> ws_closed w"
  shows "listen_for_messages (t, player) [Message (Text onmove_B)] =
         ((logger (LogSent (name player) ''check'')
             (logger (LogTurn (name player))
                (logger (LogReceived (name player) (JStr ''onmove'')) t)),
           player\<lparr>websocket := Some (w\<lparr>ws_sent := ws_sent w @ [Text check_envelope]\<rparr>)\<rparr>),
          Suspended)"
proof -
  have handled: "handle_server_message (t, player) onmove_B =
      auto_play (logger (LogTurn (name player))
        (logger (LogReceived (name player) (JStr ''onmove'')) t), player)
        (JObj [(''seat'', JInt 1), (''canCheck'', JBool True), (''callAmount'', JInt 0),
               (''minRaiseToTotalBet'', JInt 0)])"
    using assms(1) by (simp add: onmove_B_def Let_def del: auto_play.simps)
  have played: "auto_play (t', player)
        (JObj [(''seat'', JInt 1), (''canCheck'', JBool True), (''callAmount'', JInt 0),
               (''minRaiseToTotalBet'', JInt 0)]) =
      ((logger (LogSent (name player) ''check'') t',
        player\<lparr>websocket := Some (w\<lparr>ws_sent := ws_sent w @ [Text check_envelope]\<rparr>)\<rparr>), Ok)"
    for t'
    using send_message_open [OF assms(2-4), of t' "''check''" None]
    by (simp add: send_action_def check_envelope_def envelope_def json_dumps_def
          del: send_message.simps)
  show ?thesis
    using handled played
    by (simp del: handle_server_message.simps auto_play.simps)
qed

theorem scenario_B_sends_check_witness:
  "seat alice = Some 1 \<and> connected alice \<and> websocket alice = Some open_socket \<and>
   \<not> ws_closed open_socket \<and>
   frames_sent (snd (fst (listen_for_messages (harness0, alice) [Message (Text onmove_B)]))) =
     [Text (JObj [(''messageType'', JStr ''check''), (''data'', JObj [])])]"
proof -
  have h1: "seat alice = Some 1" by (simp add: alice_def)
  have h2: "connected alice" by (simp add: alice_def)
  have h3: "websocket alice = Some open_socket" by (simp add: alice_def)
  have h4: "\<not> ws_closed open_socket" by (simp add: open_socket_def)
  show ?thesis
    using h1 h2 h3 h4 scenario_B_sends_check [OF h1 h2 h3 h4, of harness0]
    by (simp add: open_socket_def check_envelope_def
          del: listen_for_messages.simps)
qed

text \<open>
  C3. For a Turn Prompt with canCheck false, callAmount 75 and minRaiseToTotalBet 150, the
  rule at the default thresholds 50 and 100 chooses raise to 150, and \<open>auto_play\<close> of an
  agent connected on an open connection sends exactly the frame
  \<open>{"messageType":"raise","data":{"amount":150}}\<close>: not a call, since 75 exceeds 50,
  and not a fold, since 75 is at most 100 and 150 is positive.
\<close>

theorem scenario_C_sends_raise:
  assumes "map_of d ''canCheck'' = Some (JBool False)"
      and "map_of d ''callAmount'' = Some (JInt 75)"
      and "map_of d ''minRaiseToTotalBet'' = Some (JInt 150)"
      and "connected player" "websocket player = Some w" "\<not> ws_closed w"
  shows "auto_play (t, player) (JObj d) =
           ((logger (LogSent (name player) ''raise'') t,
             player\<lparr>websocket := Some (w\<lparr>ws_sent := ws_sent w @ [Text raise_150_envelope]\<rparr>)\<rparr>),
            Ok) \<and>
         decision_rule SMALL_CALL_THRESHOLD RAISE_ELIGIBLE_THRESHOLD
           \<lparr>tp_seat = n, can_check = False, call_amount = PInt 75,
            min_raise_to_total_bet = PInt 150\<rparr> = Raise_to (PInt 150)"
proof
  have branch: "auto_play (t, player) (JObj d) =
      send_message (t, player) ''raise'' (Some [(''amount'', JInt 150)])"
    using assms(1-3) by (simp add: send_action_def del: send_message.simps)
  show "auto_play (t, player) (JObj d) =
           ((logger (LogSent (name player) ''raise'') t,
             player\<lparr>websocket := Some (w\<lparr>ws_sent := ws_sent w @ [Text raise_150_envelope]\<rparr>)\<rparr>),
            Ok)"
    using branch send_message_open [OF assms(4-6), of t "''raise''" "Some [(''amount'', JInt 150)]"]
    by (simp add: raise_150_envelope_def envelope_def json_dumps_def
          del: send_message.simps auto_play.simps)
next
  show "decision_rule SMALL_CALL_THRESHOLD RAISE_ELIGIBLE_THRESHOLD
           \<lparr>tp_seat = n, can_check = False, call_amount = PInt 75,
            min_raise_to_total_bet = PInt 150\<rparr> = Raise_to (PInt 150)"
    by (simp add: decision_rule_def SMALL_CALL_THRESHOLD_def RAISE_ELIGIBLE_THRESHOLD_def)
qed

theorem scenario_C_sends_raise_witness:
  "map_of (onmove_data prompt_C) ''canCheck'' = Some (JBool False) \<and>
   map_of (onmove_data prompt_C) ''callAmount'' = Some (JInt 75) \<and>
   map_of (onmove_data prompt_C) ''minRaiseToTotalBet'' = Some (JInt 150) \<and>
   connected alice \<and> websocket alice = Some open_socket \<and> \<not> ws_closed open_socket \<and>
   frames_sent (snd (fst (auto_play (harness0, alice) (JObj (onmove_data prompt_C))))) =
     [Text (JObj [(''messageType'', JStr ''raise''),
                  (''data'', JObj [(''amount'', JInt 150)])])]"
proof -
  have d1: "map_of (onmove_data prompt_C) ''canCheck'' = Some (JBool False)"
    by (simp add: onmove_data_def prompt_C_def)
  have d2: "map_of (onmove_data prompt_C) ''callAmount'' = Some (JInt 75)"
    by (simp add: onmove_data_def prompt_C_def)
  have d3: "map_of (onmove_data prompt_C) ''minRaiseToTotalBet'' = Some (JInt 150)"
    by (simp add: onmove_data_def prompt_C_def)
  have h2: "connected alice" by (simp add: alice_def)
  have h3: "websocket alice = Some open_socket" by (simp add: alice_def)
  have h4: "\<not> ws_closed open_socket" by (simp add: open_socket_def)
  show ?thesis
    using d1 d2 d3 h2 h3 h4 scenario_C_sends_raise [OF d1 d2 d3 h2 h3 h4, of harness0]
    by (simp add: open_socket_def raise_150_envelope_def del: auto_play.simps)
qed

section \<open>The game-state tracker\<close>

text \<open>
  The assignment to \<open>self.game_state\<close> comes before the log line, so the snapshot is
  replaced also when the log line raises on a payload without a countable \<open>players\<close>.
\<close>

lemma handle_gameState:
  assumes "message_type_of m = Some (JStr ''gameState'')"
  shows "game_state (fst (fst (handle_server_message (t, player) m))) = payload_of m"
proof (cases m)
  case (JObj kvs)
  then have ty: "map_of kvs ''messageType'' = Some (JStr ''gameState'')"
    using assms by simp
  show ?thesis
    using JObj ty by (auto simp: Let_def logger_def split: sum.splits option.splits)
qed (use assms in simp_all)

lemma deliver_all_append:
  "deliver_all t (xs @ ys) = deliver_all (deliver_all t xs) ys"
  by (induction xs arbitrary: t) auto

text \<open>
  C4. For every sequence of gameState messages, delivered to whichever agents, the snapshot
  after the k-th message has been handled is the payload of the k-th message, whatever
  the earlier snapshots and payloads were: each update replaces the snapshot whole, and
  nothing is compared with the previous one.
\<close>

theorem snapshot_is_latest_payload:
  assumes "\<forall>(player, m) \<in> set ds. message_type_of m = Some (JStr ''gameState'')"
      and "k < length ds"
  shows "game_state (deliver_all t (take (Suc k) ds)) = payload_of (snd (ds ! k))"
proof -
  obtain player m where pm: "ds ! k = (player, m)"
    by (cases "ds ! k")
  have "(player, m) \<in> set ds"
    using assms(2) pm by (metis nth_mem)
  then have ty: "message_type_of m = Some (JStr ''gameState'')"
    using assms(1) by auto
  have "take (Suc k) ds = take k ds @ [(player, m)]"
    using assms(2) pm by (simp add: take_Suc_conv_app_nth)
  then have "deliver_all t (take (Suc k) ds) =
      fst (fst (handle_server_message (deliver_all t (take k ds), player) m))"
    by (simp add: deliver_all_append)
  then show ?thesis
    using handle_gameState [OF ty] pm by simp
qed

theorem snapshot_is_latest_payload_witness:
  "message_type_of game_state_1 = Some (JStr ''gameState'') \<and>
   message_type_of game_state_2 = Some (JStr ''gameState'') \<and>
   (1::nat) < length [(alice, game_state_1), (bob, game_state_2)] \<and>
   game_state (deliver_all harness0 [(alice, game_state_1), (bob, game_state_2)]) =
     JObj [(''players'', JObj []), (''pot'', JInt 0)]"
proof -
  let ?ds = "[(alice, game_state_1), (bob, game_state_2)]"
  have t1: "message_type_of game_state_1 = Some (JStr ''gameState'')"
    by (simp add: game_state_1_def)
  have t2: "message_type_of game_state_2 = Some (JStr ''gameState'')"
    by (simp add: game_state_2_def)
  have h1: "\<forall>(player, m) \<in> set ?ds. message_type_of m = Some (JStr ''gameState'')"
    using t1 t2 by simp
  have h2: "(1::nat) < length ?ds"
    by simp
  have p: "payload_of (snd (?ds ! 1)) = JObj [(''players'', JObj []), (''pot'', JInt 0)]"
    by (simp add: game_state_2_def snapshot_2_def)
  have "game_state (deliver_all harness0 (take (Suc 1) ?ds)) = payload_of (snd (?ds ! 1))"
    using h1 h2 by (rule snapshot_is_latest_payload)
  then have "game_state (deliver_all harness0 ?ds) =
      JObj [(''players'', JObj []), (''pot'', JInt 0)]"
    using p by (simp del: deliver_all.simps)
  then show ?thesis
    using t1 t2 h2 by blast
qed

section \<open>Messages of no recognized type\<close>

lemma handle_unrecognized:
  assumes "message_type_of (JObj kvs) \<notin>
     {Some (JStr ''gameState''), Some (JStr ''onmove''), Some (JStr ''handWinnings'')}"
  shows "handle_server_message (t, player) (JObj kvs) =
           ((logger (LogReceived (name player)
               (case message_type_of (JObj kvs) of None \<Rightarrow> JStr [] | Some v \<Rightarrow> v)) t,
             player), Ok)"
  using assms by (auto simp: Let_def simp del: auto_play.simps split: option.splits)

lemma handle_not_object:
  assumes "\<not> is_object m"
  shows "handle_server_message (t, player) m = ((t, player), Raised AttributeError)"
  using assms by (cases m) simp_all

text \<open>
  C10. For every inbound message whose messageType is absent or is none of gameState,
  onmove and handWinnings, handling it leaves the snapshot, the registry of agents and
  the handling agent (seat, chips, connected flag, connection and the frames sent on it)
  as they were: nothing is sent. When the message is an envelope (a JSON object) the only
  effect is the log line that names the type received, and the handler returns normally.
\<close>

theorem unrecognized_message_changes_nothing:
  assumes "message_type_of m \<notin>
     {Some (JStr ''gameState''), Some (JStr ''onmove''), Some (JStr ''handWinnings'')}"
  shows "snd (fst (handle_server_message (t, player) m)) = player \<and>
         game_state (fst (fst (handle_server_message (t, player) m))) = game_state t \<and>
         players (fst (fst (handle_server_message (t, player) m))) = players t \<and>
         frames_sent (snd (fst (handle_server_message (t, player) m))) = frames_sent player \<and>
         (is_object m \<longrightarrow>
            handle_server_message (t, player) m =
              ((logger (LogReceived (name player)
                  (case message_type_of m of None \<Rightarrow> JStr [] | Some v \<Rightarrow> v)) t,
                player), Ok))"
proof (cases "is_object m")
  case True
  then obtain kvs where m: "m = JObj kvs"
    by (cases m) simp_all
  have "handle_server_message (t, player) m =
      ((logger (LogReceived (name player)
          (case message_type_of m of None \<Rightarrow> JStr [] | Some v \<Rightarrow> v)) t, player), Ok)"
    using assms unfolding m by (rule handle_unrecognized)
  then show ?thesis
    by (simp add: logger_def del: handle_server_message.simps)
next
  case False
  then show ?thesis
    using handle_not_object [OF False, of t player]
    by (simp del: handle_server_message.simps)
qed

theorem unrecognized_message_changes_nothing_witness:
  "message_type_of chat_message \<notin>
     {Some (JStr ''gameState''), Some (JStr ''onmove''), Some (JStr ''handWinnings'')} \<and>
   is_object chat_message \<and>
   handle_server_message (harness0\<lparr>game_state := snapshot_1\<rparr>, alice) chat_message =
     ((logger (LogReceived ''Alice'' (JStr ''chat'')) (harness0\<lparr>game_state := snapshot_1\<rparr>),
       alice), Ok)"
proof -
  have h: "message_type_of chat_message \<notin>
     {Some (JStr ''gameState''), Some (JStr ''onmove''), Some (JStr ''handWinnings'')}"
    by (simp add: chat_message_def)
  have o: "is_object chat_message"
    by (simp add: chat_message_def)
  have ty: "message_type_of chat_message = Some (JStr ''chat'')"
    by (simp add: chat_message_def)
  have n: "name alice = ''Alice''"
    by (simp add: alice_def)
  show ?thesis
    using h o ty n
      unrecognized_message_changes_nothing [OF h, of "harness0\<lparr>game_state := snapshot_1\<rparr>" alice]
    by (simp del: handle_server_message.simps)
qed

section \<open>The listener loop and malformed frames\<close>

text \<open>
  C5, as amended. A frame that decodes to a JSON object with no messageType, or with a
  messageType that is none of gameState, onmove and handWinnings, is logged and dropped,
  and the listener goes on with the frames that follow. A frame that is not JSON, or that
  decodes to something other than a JSON object, raises inside the loop; the \<open>try\<close>
  encloses the whole loop, so the listener logs the error and ends, with the agent and the
  snapshot as they were, and the frames that follow are not handled.
\<close>

theorem listener_on_malformed_frame:
  "(is_object m \<and> message_type_of m \<notin>
       {Some (JStr ''gameState''), Some (JStr ''onmove''), Some (JStr ''handWinnings'')} \<longrightarrow>
      listen_for_messages (t, player) (Message (Text m) # evs) =
      listen_for_messages
        (logger (LogReceived (name player)
           (case message_type_of m of None \<Rightarrow> JStr [] | Some v \<Rightarrow> v)) t, player) evs) \<and>
   listen_for_messages (t, player) (Message (NotJson x) # evs) =
      ((logger (LogListenError (name player) JSONDecodeError) t, player), Finished Ok) \<and>
   (\<not> is_object m \<longrightarrow>
      listen_for_messages (t, player) (Message (Text m) # evs) =
      ((logger (LogListenError (name player) AttributeError) t, player), Finished Ok))"
proof -
  have goes_on: "listen_for_messages (t, player) (Message (Text m) # evs) =
      listen_for_messages
        (logger (LogReceived (name player)
           (case message_type_of m of None \<Rightarrow> JStr [] | Some v \<Rightarrow> v)) t, player) evs"
    if obj: "is_object m" and ty: "message_type_of m \<notin>
       {Some (JStr ''gameState''), Some (JStr ''onmove''), Some (JStr ''handWinnings'')}"
  proof -
    obtain kvs where m: "m = JObj kvs"
      using obj by (cases m) simp_all
    have "handle_server_message (t, player) m =
        ((logger (LogReceived (name player)
            (case message_type_of m of None \<Rightarrow> JStr [] | Some v \<Rightarrow> v)) t, player), Ok)"
      using ty unfolding m by (rule handle_unrecognized)
    then show ?thesis
      by (simp del: handle_server_message.simps)
  qed
  have not_json: "listen_for_messages (t, player) (Message (NotJson x) # evs) =
      ((logger (LogListenError (name player) JSONDecodeError) t, player), Finished Ok)"
    by simp
  have not_object: "listen_for_messages (t, player) (Message (Text m) # evs) =
      ((logger (LogListenError (name player) AttributeError) t, player), Finished Ok)"
    if "\<not> is_object m"
    using handle_not_object [OF that, of t player]
    by (simp del: handle_server_message.simps)
  show ?thesis
    using goes_on not_json not_object by blast
qed

theorem listener_on_malformed_frame_witness:
  "is_object chat_message \<and>
   message_type_of chat_message \<notin>
     {Some (JStr ''gameState''), Some (JStr ''onmove''), Some (JStr ''handWinnings'')} \<and>
   \<not> is_object (JList []) \<and>
   listen_for_messages (harness0, alice) [Message (Text chat_message), Message (Text game_state_1)] =
     ((logger (LogGameState 1 (JInt 30))
         ((logger (LogReceived ''Alice'' (JStr ''gameState''))
            (logger (LogReceived ''Alice'' (JStr ''chat'')) harness0))
          \<lparr>game_state := snapshot_1\<rparr>), alice), Suspended) \<and>
   listen_for_messages (harness0, alice) [Message (Text (JList [])), Message (Text game_state_1)] =
     ((logger (LogListenError ''Alice'' AttributeError) harness0, alice), Finished Ok)"
proof -
  have o: "is_object chat_message"
    by (simp add: chat_message_def)
  have h: "message_type_of chat_message \<notin>
     {Some (JStr ''gameState''), Some (JStr ''onmove''), Some (JStr ''handWinnings'')}"
    by (simp add: chat_message_def)
  have l: "\<not> is_object (JList [])"
    by simp
  have ty: "message_type_of chat_message = Some (JStr ''chat'')"
    by (simp add: chat_message_def)
  have n: "name alice = ''Alice''"
    by (simp add: alice_def)
  have rest: "listen_for_messages (logger (LogReceived ''Alice'' (JStr ''chat'')) harness0, alice)
      [Message (Text game_state_1)] =
     ((logger (LogGameState 1 (JInt 30))
         ((logger (LogReceived ''Alice'' (JStr ''gameState''))
            (logger (LogReceived ''Alice'' (JStr ''chat'')) harness0))
          \<lparr>game_state := snapshot_1\<rparr>), alice), Suspended)"
    by (simp add: game_state_1_def snapshot_1_def n Let_def)
  have first: "listen_for_messages (harness0, alice)
      [Message (Text chat_message), Message (Text game_state_1)] =
      listen_for_messages (logger (LogReceived ''Alice'' (JStr ''chat'')) harness0, alice)
        [Message (Text game_state_1)]"
    using o h ty n
      listener_on_malformed_frame [of chat_message harness0 alice "[Message (Text game_state_1)]"]
    by (simp del: listen_for_messages.simps)
  have second: "listen_for_messages (harness0, alice)
      [Message (Text (JList [])), Message (Text game_state_1)] =
     ((logger (LogListenError ''Alice'' AttributeError) harness0, alice), Finished Ok)"
    using l n
      listener_on_malformed_frame [of "JList []" harness0 alice "[Message (Text game_state_1)]"]
    by (simp del: listen_for_messages.simps)
  show ?thesis
    using o h l first rest second by (simp del: listen_for_messages.simps)
qed

text \<open>
  The claim as stated fails: Alice's listener receives a frame that is not JSON and then
  a well-formed gameState frame. The listener ends at the first frame with the error
  logged, and the snapshot is still the empty one; the same gameState frame received alone
  would have replaced it and left the listener waiting.
\<close>

theorem malformed_frame_ends_listener:
  "listen_for_messages (harness0, alice)
     [Message (NotJson ''{messageType:''), Message (Text game_state_1)] =
     ((logger (LogListenError ''Alice'' JSONDecodeError) harness0, alice), Finished Ok) \<and>
   game_state (logger (LogListenError ''Alice'' JSONDecodeError) harness0) = JObj [] \<and>
   snd (listen_for_messages (harness0, alice) [Message (Text game_state_1)]) = Suspended \<and>
   game_state (fst (fst (listen_for_messages (harness0, alice) [Message (Text game_state_1)]))) =
     snapshot_1 \<and>
   snapshot_1 \<noteq> JObj []"
  by (simp add: game_state_1_def snapshot_1_def alice_def harness0_def init_def logger_def
        Let_def)

section \<open>The connected flag\<close>

lemma listen_loop_connected [simp]:
  "connected (snd (fst (listen_loop s evs))) = connected (snd s)"
proof (induction s evs rule: listen_loop.induct)
  case (4 s f evs)
  show ?case
  proof (cases "json_loads f")
    case (Inl e)
    then show ?thesis by simp
  next
    case (Inr data)
    obtain s' r where h: "handle_server_message s data = (s', r)"
      by (cases "handle_server_message s data")
    have c: "connected (snd s') = connected (snd s)"
      using handle_connected [of s data] h by simp
    show ?thesis
    proof (cases r)
      case Ok
      then show ?thesis using 4 Inr h c by simp
    next
      case (Raised e)
      then show ?thesis using Inr h c by simp
    qed
  qed
qed simp_all

lemma listen_closed:
  assumes "snd (listen_loop s evs) = Threw ConnectionClosed"
  shows "\<not> connected (snd (fst (listen_for_messages s evs)))"
  using assms by (cases "listen_loop s evs") (auto split: prod.splits)

lemma listen_otherwise:
  assumes "snd (listen_loop s evs) \<noteq> Threw ConnectionClosed"
  shows "connected (snd (fst (listen_for_messages s evs))) = connected (snd s)"
proof -
  obtain t' p' x where h: "listen_loop s evs = ((t', p'), x)"
    by (cases "listen_loop s evs") auto
  have "connected p' = connected (snd s)"
    using listen_loop_connected [of s evs] h by simp
  then show ?thesis
    using assms h by (cases x) auto
qed

lemma listen_never_connects:
  "connected (snd (fst (listen_for_messages s evs))) \<Longrightarrow> connected (snd s)"
  using listen_closed [of s evs] listen_otherwise [of s evs] by blast

lemma apply_op_never_connects:
  "connected (snd (apply_op s x)) \<Longrightarrow> connected (snd s)"
proof (cases x)
  case (Listen evs)
  then show "connected (snd (apply_op s x)) \<Longrightarrow> connected (snd s)"
    using listen_never_connects [of s evs] by simp
next
  case (TakeSeat n)
  obtain s' r where h: "send_message s ''takeSeat'' (Some [(''seat'', JInt n)]) = (s', r)"
    by (cases "send_message s ''takeSeat'' (Some [(''seat'', JInt n)])")
  have "connected (snd s') = connected (snd s)"
    using send_message_connected [of s "''takeSeat''" "Some [(''seat'', JInt n)]"] h by simp
  then show "connected (snd (apply_op s x)) \<Longrightarrow> connected (snd s)"
    using TakeSeat h by (cases r; cases s') auto
next
  case CloseSocket
  then show "connected (snd (apply_op s x)) \<Longrightarrow> connected (snd s)"
    by (cases s) (auto split: option.splits)
next
  case Register
  then show "connected (snd (apply_op s x)) \<Longrightarrow> connected (snd s)"
    by (cases s) (simp del: send_message.simps)
qed (simp_all del: auto_play.simps handle_server_message.simps send_message.simps
       add: start_game_def)

lemma apply_ops_never_connects:
  "\<not> connected (snd s) \<Longrightarrow> \<not> connected (snd (apply_ops s ops))"
proof (induction ops arbitrary: s)
  case Nil
  then show ?case by simp
next
  case (Cons x xs)
  have "\<not> connected (snd (apply_op s x))"
    using Cons.prems apply_op_never_connects [of s x] by blast
  then show ?case
    using Cons.IH [of "apply_op s x"] by simp
qed

text \<open>
  C6, as amended. When the listener loop is left because ConnectionClosed was raised (by
  the receive, or by a send inside the handler), the agent's connected flag is set to
  false. When it is left in any other way (another exception, or the end of the
  iteration), and while it is still waiting, the flag is as it was before. No method
  that acts on an existing agent sets the flag: once false it stays false.
\<close>

theorem connected_flag_after_listener:
  "(snd (listen_loop s evs) = Threw ConnectionClosed \<longrightarrow>
      \<not> connected (snd (fst (listen_for_messages s evs)))) \<and>
   (snd (listen_loop s evs) \<noteq> Threw ConnectionClosed \<longrightarrow>
      connected (snd (fst (listen_for_messages s evs))) = connected (snd s)) \<and>
   (\<not> connected (snd s) \<longrightarrow> \<not> connected (snd (apply_ops s ops)))"
proof (intro conjI impI)
  assume "snd (listen_loop s evs) = Threw ConnectionClosed"
  then show "\<not> connected (snd (fst (listen_for_messages s evs)))"
    by (rule listen_closed)
next
  assume "snd (listen_loop s evs) \<noteq> Threw ConnectionClosed"
  then show "connected (snd (fst (listen_for_messages s evs))) = connected (snd s)"
    by (rule listen_otherwise)
next
  assume "\<not> connected (snd s)"
  then show "\<not> connected (snd (apply_ops s ops))"
    by (rule apply_ops_never_connects)
qed

theorem connected_flag_after_listener_witness:
  "snd (listen_loop (harness0, alice) [Message (Text chat_message), RecvRaises ConnectionClosed])
     = Threw ConnectionClosed \<and>
   \<not> connected (snd (fst (listen_for_messages (harness0, alice)
       [Message (Text chat_message), RecvRaises ConnectionClosed]))) \<and>
   snd (listen_loop (harness0, bob) [RecvRaises (OtherException ''reset'')])
     \<noteq> Threw ConnectionClosed \<and>
   connected (snd (fst (listen_for_messages (harness0, bob)
       [RecvRaises (OtherException ''reset'')]))) \<and>
   \<not> connected (snd (harness0, alice\<lparr>connected := False\<rparr>)) \<and>
   \<not> connected (snd (apply_ops (harness0, alice\<lparr>connected := False\<rparr>)
       [Listen [Message (Text onmove_B)], Register, TakeSeat 3, StartGame, CloseSocket]))"
proof -
  let ?e1 = "[Message (Text chat_message), RecvRaises ConnectionClosed]"
  let ?e2 = "[RecvRaises (OtherException ''reset'')]"
  let ?ops = "[Listen [Message (Text onmove_B)], Register, TakeSeat 3, StartGame, CloseSocket]"
  have a: "snd (listen_loop (harness0, alice) ?e1) = Threw ConnectionClosed"
    by (simp add: chat_message_def Let_def)
  have b: "snd (listen_loop (harness0, bob) ?e2) \<noteq> Threw ConnectionClosed"
    by simp
  have c: "\<not> connected (snd (harness0, alice\<lparr>connected := False\<rparr>))"
    by simp
  have d: "connected (snd (harness0, bob))"
    by (simp add: bob_def)
  show ?thesis
    using a b c d
      connected_flag_after_listener [of "(harness0, alice)" ?e1]
      connected_flag_after_listener [of "(harness0, bob)" ?e2]
      connected_flag_after_listener [of "(harness0, alice\<lparr>connected := False\<rparr>)" _ ?ops]
    by (simp del: listen_for_messages.simps listen_loop.simps apply_ops.simps)
qed

text \<open>
  The claim as stated fails: the receive of Bob's listener raises an exception that is
  not ConnectionClosed. The listener logs the error and ends, and Bob is still marked
  connected.
\<close>

theorem other_receive_failure_keeps_flag:
  "listen_for_messages (harness0, bob) [RecvRaises (OtherException ''reset'')] =
     ((logger (LogListenError ''Bob'' (OtherException ''reset'')) harness0, bob), Finished Ok) \<and>
   connected bob"
  by (simp add: bob_def)

section \<open>One action for each prompt\<close>

text \<open>
  C7. For every Turn Prompt received in an \<open>onmove\<close> envelope by an agent connected on an
  open connection: when the prompt's seat is the agent's assigned seat, the handler sends
  exactly one frame, the envelope of the action the rule chooses, which is one of check,
  call, raise and fold, and returns normally; when the prompt's seat is not the agent's
  assigned seat (or the agent has none), the agent is as it was and nothing is sent.
\<close>

theorem one_action_per_prompt:
  assumes "connected player" "websocket player = Some w" "\<not> ws_closed w"
      and "carries d tp"
  shows "(seat player = Some (tp_seat tp) \<longrightarrow>
            frames_sent (snd (fst (handle_server_message (t, player)
                (envelope ''onmove'' (JObj d))))) =
              frames_sent player @
                [json_dumps (action_envelope
                   (decision_rule SMALL_CALL_THRESHOLD RAISE_ELIGIBLE_THRESHOLD tp))] \<and>
            snd (handle_server_message (t, player) (envelope ''onmove'' (JObj d))) = Ok) \<and>
         (seat player \<noteq> Some (tp_seat tp) \<longrightarrow>
            snd (fst (handle_server_message (t, player) (envelope ''onmove'' (JObj d)))) =
              player \<and>
            snd (handle_server_message (t, player) (envelope ''onmove'' (JObj d))) = Ok) \<and>
         action_type (decision_rule SMALL_CALL_THRESHOLD RAISE_ELIGIBLE_THRESHOLD tp)
           \<in> {''check'', ''call'', ''raise'', ''fold''}"
proof -
  let ?a = "decision_rule SMALL_CALL_THRESHOLD RAISE_ELIGIBLE_THRESHOLD tp"
  let ?m = "envelope ''onmove'' (JObj d)"
  have seat_v: "map_of d ''seat'' = Some (JInt (tp_seat tp))"
    using assms(4) by (simp add: carries_def)
  have play: "auto_play s (JObj d) = send_message s (action_type ?a) (action_data ?a)" for s
    using auto_play_decision [OF assms(4)] by (simp add: send_action_def)
  have hit: "handle_server_message (t, player) ?m =
      auto_play (logger (LogTurn (name player))
        (logger (LogReceived (name player) (JStr ''onmove'')) t), player) (JObj d)"
    if "seat player = Some (tp_seat tp)"
    using that seat_v by (simp add: envelope_def Let_def del: auto_play.simps)
  have miss: "handle_server_message (t, player) ?m =
      ((logger (LogReceived (name player) (JStr ''onmove'')) t, player), Ok)"
    if "seat player \<noteq> Some (tp_seat tp)"
    using that seat_v
    by (cases "seat player") (simp_all add: envelope_def Let_def del: auto_play.simps)
  have sent: "handle_server_message (t, player) ?m =
      ((logger (LogSent (name player) (action_type ?a))
          (logger (LogTurn (name player))
             (logger (LogReceived (name player) (JStr ''onmove'')) t)),
        player\<lparr>websocket := Some (w\<lparr>ws_sent := ws_sent w @
          [json_dumps (envelope (action_type ?a) (data_or_empty (action_data ?a)))]\<rparr>)\<rparr>), Ok)"
    if "seat player = Some (tp_seat tp)"
    using hit [OF that] play send_message_open [OF assms(1-3)] by simp
  have kinds: "action_type ?a \<in> {''check'', ''call'', ''raise'', ''fold''}"
    by (cases ?a) simp_all
  show ?thesis
    using sent miss kinds assms(2) by (simp add: action_envelope_def)
qed

theorem one_action_per_prompt_witness:
  "connected alice \<and> websocket alice = Some open_socket \<and> \<not> ws_closed open_socket \<and>
   carries (onmove_data prompt_C) prompt_C \<and> seat alice = Some (tp_seat prompt_C) \<and>
   frames_sent (snd (fst (handle_server_message (harness0, alice)
       (envelope ''onmove'' (JObj (onmove_data prompt_C)))))) = [Text raise_150_envelope] \<and>
   connected bob \<and> websocket bob = Some open_socket \<and> seat bob \<noteq> Some (tp_seat prompt_C) \<and>
   snd (fst (handle_server_message (harness0, bob)
       (envelope ''onmove'' (JObj (onmove_data prompt_C))))) = bob"
proof -
  have a1: "connected alice" by (simp add: alice_def)
  have a2: "websocket alice = Some open_socket" by (simp add: alice_def)
  have b1: "connected bob" by (simp add: bob_def)
  have b2: "websocket bob = Some open_socket" by (simp add: bob_def)
  have o: "\<not> ws_closed open_socket" by (simp add: open_socket_def)
  have c: "carries (onmove_data prompt_C) prompt_C" by (rule carries_onmove_data)
  have sa: "seat alice = Some (tp_seat prompt_C)" by (simp add: alice_def prompt_C_def)
  have sb: "seat bob \<noteq> Some (tp_seat prompt_C)" by (simp add: bob_def prompt_C_def)
  have r: "decision_rule SMALL_CALL_THRESHOLD RAISE_ELIGIBLE_THRESHOLD prompt_C =
             Raise_to (PInt 150)"
    by (simp add: decision_rule_def SMALL_CALL_THRESHOLD_def RAISE_ELIGIBLE_THRESHOLD_def
          prompt_C_def)
  have e: "json_dumps (action_envelope (Raise_to (PInt 150))) = Text raise_150_envelope"
    by (simp add: json_dumps_def action_envelope_def envelope_def raise_150_envelope_def)
  have fa: "frames_sent alice = []" by (simp add: alice_def open_socket_def)
  have "frames_sent (snd (fst (handle_server_message (harness0, alice)
       (envelope ''onmove'' (JObj (onmove_data prompt_C)))))) = [Text raise_150_envelope]"
    using one_action_per_prompt [OF a1 a2 o c, of harness0] sa r e fa
    by (simp del: handle_server_message.simps frames_sent.simps)
  moreover have "snd (fst (handle_server_message (harness0, bob)
       (envelope ''onmove'' (JObj (onmove_data prompt_C))))) = bob"
    using one_action_per_prompt [OF b1 b2 o c, of harness0] sb
    by (simp del: handle_server_message.simps frames_sent.simps)
  ultimately show ?thesis
    using a1 a2 b1 b2 o c sa sb by blast
qed

section \<open>The guard of send_message\<close>

text \<open>
  C8, as amended. \<open>send_message\<close> raises the not-connected exception exactly when the
  agent's connected flag is false or the agent has no connection object. Past the guard
  the envelope is handed to the connection's send and nothing is read back, so no
  acknowledgment is awaited: on a connection that has not been closed the envelope is
  appended to the frames sent and the method returns normally; on a connection object
  that has been closed while the flag still says connected, the library's
  ConnectionClosed reaches the caller, nothing is sent and nothing changes.
\<close>

theorem send_message_guard:
  "(snd (send_message (t, player) mt data) = Raised (NotConnected (name player))) =
     (\<not> connected player \<or> websocket player = None) \<and>
   (connected player \<and> websocket player = Some w \<and> \<not> ws_closed w \<longrightarrow>
      send_message (t, player) mt data =
        ((logger (LogSent (name player) mt) t,
          player\<lparr>websocket := Some (w\<lparr>ws_sent := ws_sent w @
            [json_dumps (envelope mt (data_or_empty data))]\<rparr>)\<rparr>), Ok)) \<and>
   (connected player \<and> websocket player = Some w \<and> ws_closed w \<longrightarrow>
      send_message (t, player) mt data = ((t, player), Raised ConnectionClosed))"
proof (intro conjI)
  show "(snd (send_message (t, player) mt data) = Raised (NotConnected (name player))) =
     (\<not> connected player \<or> websocket player = None)"
  proof (cases "\<not> connected player \<or> websocket player = None")
    case True
    then show ?thesis by auto
  next
    case False
    then obtain w' where w': "websocket player = Some w'" and c: "connected player"
      by auto
    show ?thesis
    proof (cases "ws_closed w'")
      case True
      then show ?thesis
        using send_message_closed_socket [OF c w' True, of t mt data] c w'
        by (simp del: send_message.simps)
    next
      case False
      then show ?thesis
        using send_message_open [OF c w' False, of t mt data] c w'
        by (simp del: send_message.simps)
    qed
  qed
next
  show "connected player \<and> websocket player = Some w \<and> \<not> ws_closed w \<longrightarrow>
      send_message (t, player) mt data =
        ((logger (LogSent (name player) mt) t,
          player\<lparr>websocket := Some (w\<lparr>ws_sent := ws_sent w @
            [json_dumps (envelope mt (data_or_empty data))]\<rparr>)\<rparr>), Ok)"
    using send_message_open [of player w t mt data] by blast
next
  show "connected player \<and> websocket player = Some w \<and> ws_closed w \<longrightarrow>
      send_message (t, player) mt data = ((t, player), Raised ConnectionClosed)"
    using send_message_closed_socket [of player w t mt data] by blast
qed

theorem send_message_guard_witness:
  "connected alice \<and> websocket alice = Some open_socket \<and> \<not> ws_closed open_socket \<and>
   send_message (harness0, alice) ''startGame'' None =
     ((logger (LogSent ''Alice'' ''startGame'') harness0,
       alice\<lparr>websocket := Some (open_socket\<lparr>ws_sent :=
         [Text (JObj [(''messageType'', JStr ''startGame''), (''data'', JObj [])])]\<rparr>)\<rparr>), Ok) \<and>
   snd (send_message (harness0, alice\<lparr>connected := False\<rparr>) ''startGame'' None) =
     Raised (NotConnected ''Alice'') \<and>
   snd (send_message (harness0, alice\<lparr>websocket := None\<rparr>) ''startGame'' None) =
     Raised (NotConnected ''Alice'') \<and>
   connected bob \<and> ws_closed (ws_close open_socket) \<and>
   send_message (harness0, bob\<lparr>websocket := Some (ws_close open_socket)\<rparr>) ''call'' None =
     ((harness0, bob\<lparr>websocket := Some (ws_close open_socket)\<rparr>), Raised ConnectionClosed)"
proof -
  have a1: "connected alice" by (simp add: alice_def)
  have a2: "websocket alice = Some open_socket" by (simp add: alice_def)
  have o: "\<not> ws_closed open_socket" by (simp add: open_socket_def)
  have n: "name alice = ''Alice''" by (simp add: alice_def)
  have s0: "ws_sent open_socket = []" by (simp add: open_socket_def)
  have b1: "connected bob" by (simp add: bob_def)
  have c: "ws_closed (ws_close open_socket)" by (simp add: ws_close_def)
  have sent: "send_message (harness0, alice) ''startGame'' None =
     ((logger (LogSent ''Alice'' ''startGame'') harness0,
       alice\<lparr>websocket := Some (open_socket\<lparr>ws_sent :=
         [Text (JObj [(''messageType'', JStr ''startGame''), (''data'', JObj [])])]\<rparr>)\<rparr>), Ok)"
    using a1 a2 o n s0
      send_message_guard [of harness0 alice "''startGame''" None open_socket]
    by (simp add: json_dumps_def envelope_def del: send_message.simps)
  have flag: "snd (send_message (harness0, alice\<lparr>connected := False\<rparr>) ''startGame'' None) =
     Raised (NotConnected ''Alice'')"
    using n send_message_guard [of harness0 "alice\<lparr>connected := False\<rparr>" "''startGame''" None]
    by (simp del: send_message.simps)
  have none: "snd (send_message (harness0, alice\<lparr>websocket := None\<rparr>) ''startGame'' None) =
     Raised (NotConnected ''Alice'')"
    using n send_message_guard [of harness0 "alice\<lparr>websocket := None\<rparr>" "''startGame''" None]
    by (simp del: send_message.simps)
  have closed: "send_message (harness0, bob\<lparr>websocket := Some (ws_close open_socket)\<rparr>)
       ''call'' None =
     ((harness0, bob\<lparr>websocket := Some (ws_close open_socket)\<rparr>), Raised ConnectionClosed)"
    using b1 c
      send_message_guard [of harness0 "bob\<lparr>websocket := Some (ws_close open_socket)\<rparr>"
        "''call''" None "ws_close open_socket"]
    by (simp del: send_message.simps)
  show ?thesis
    using a1 a2 o sent flag none b1 c closed by blast
qed

text \<open>
  The claim as stated fails: Carol's flag is set and she has a connection object, so her
  session is not closed in the claim's sense, but the connection has been closed.
  \<open>send_message\<close> passes the guard, the send raises ConnectionClosed, which is not the
  not-connected exception, and no frame is sent: Carol and the harness are as before.
\<close>

theorem send_on_closed_connection_transmits_nothing:
  "connected carol \<and> websocket carol \<noteq> None \<and>
   send_message (harness0, carol) ''check'' None =
     ((harness0, carol), Raised ConnectionClosed) \<and>
   frames_sent (snd (fst (send_message (harness0, carol) ''check'' None))) = [] \<and>
   Raised ConnectionClosed \<noteq> Raised (NotConnected (name carol))"
  by (simp add: carol_def ws_close_def ws_send_def open_socket_def)

section \<open>Teardown\<close>

lemma close_connected_closes:
  "(k, player) \<in> set (close_connected ps) \<Longrightarrow> connected player \<Longrightarrow>
     websocket player = Some w \<Longrightarrow> ws_closed w"
  by (induction ps rule: close_connected.induct)
     (auto simp: ws_close_def split: if_splits option.splits)

lemma players_cleanup: "players (cleanup t) = close_connected (players t)"
  by (simp add: cleanup_def logger_def Let_def)

lemma logged_cleanup: "LogCleaningUp \<in> set (logged (cleanup t))"
  by (simp add: cleanup_def logger_def Let_def)

text \<open>
  Whatever the steps did and however the \<open>try\<close> body ended, the harness returned is
  \<open>cleanup\<close> of a harness with the registry the body left (followed by the printing of
  the results unless an exception goes on to the caller).
\<close>

lemma run_all_tests_cleanup:
  "\<exists>t1. players t1 = players (fst (run_steps tests (logger LogStarting t))) \<and>
        (fst (run_all_tests tests t) = cleanup t1 \<or>
         fst (run_all_tests tests t) = print_results (cleanup t1))"
proof -
  obtain t1 r where h: "run_steps tests (logger LogStarting t) = (t1, r)"
    by (cases "run_steps tests (logger LogStarting t)")
  show ?thesis
  proof (cases r)
    case Ok
    then show ?thesis
      using h by (auto simp: run_all_tests_def)
  next
    case (Raised e)
    have "players (logger l t1) = players t1" for l
      by (simp add: logger_def)
    then show ?thesis
      using h Raised by (auto simp: run_all_tests_def)
  qed
qed

text \<open>
  C9. For every run of the scenario, whatever its steps do and whether they all return,
  one of them raises an exception or one of them is interrupted, \<open>cleanup\<close> is executed on
  the registry the steps left: in the harness that \<open>run_all_tests\<close> leaves, the registry
  is that registry with every connected agent's connection closed, so every agent in it
  that is marked connected and has a connection has a closed one, and the log holds the
  line of the teardown.
\<close>

theorem teardown_always_runs:
  "players (fst (run_all_tests tests t)) =
     close_connected (players (fst (run_steps tests (logger LogStarting t)))) \<and>
   (\<forall>(k, player) \<in> set (players (fst (run_all_tests tests t))).
      \<forall>w. connected player \<and> websocket player = Some w \<longrightarrow> ws_closed w) \<and>
   LogCleaningUp \<in> set (logged (fst (run_all_tests tests t)))"
proof -
  obtain t1 where p: "players t1 = players (fst (run_steps tests (logger LogStarting t)))"
    and c: "fst (run_all_tests tests t) = cleanup t1 \<or>
            fst (run_all_tests tests t) = print_results (cleanup t1)"
    using run_all_tests_cleanup by blast
  have eq: "players (fst (run_all_tests tests t)) = close_connected (players t1)"
    using c players_cleanup [of t1] by (auto simp: print_results_def logger_def)
  have lg: "LogCleaningUp \<in> set (logged (fst (run_all_tests tests t)))"
    using c logged_cleanup [of t1] by (auto simp: print_results_def logger_def)
  have closed: "ws_closed w"
    if "(k, player) \<in> set (players (fst (run_all_tests tests t)))"
      and "connected player" and "websocket player = Some w" for k player w
    using that eq close_connected_closes by simp
  show ?thesis
    using eq p lg closed by auto
qed

theorem teardown_always_runs_witness:
  "run_steps [step_connect, step_interrupted, step_forget] (logger LogStarting harness0) =
     ((logger LogStarting harness0)\<lparr>players := [(''Alice'', alice)]\<rparr>, Raised KeyboardInterrupt) \<and>
   connected alice \<and> websocket alice = Some open_socket \<and> \<not> ws_closed open_socket \<and>
   players (fst (run_all_tests [step_connect, step_interrupted, step_forget] harness0)) =
     [(''Alice'', alice\<lparr>websocket := Some (open_socket\<lparr>ws_closed := True\<rparr>)\<rparr>)] \<and>
   snd (run_all_tests [step_connect, step_interrupted, step_forget] harness0) = Ok"
proof -
  let ?tests = "[step_connect, step_interrupted, step_forget]"
  have body: "run_steps ?tests (logger LogStarting harness0) =
     ((logger LogStarting harness0)\<lparr>players := [(''Alice'', alice)]\<rparr>, Raised KeyboardInterrupt)"
    by (simp add: step_connect_def step_interrupted_def harness0_def init_def logger_def)
  have a1: "connected alice" by (simp add: alice_def)
  have a2: "websocket alice = Some open_socket" by (simp add: alice_def)
  have o: "\<not> ws_closed open_socket" by (simp add: open_socket_def)
  have closing: "close_connected [(''Alice'', alice)] =
      [(''Alice'', alice\<lparr>websocket := Some (open_socket\<lparr>ws_closed := True\<rparr>)\<rparr>)]"
    using a1 a2 by (simp add: ws_close_def)
  have "players (fst (run_all_tests ?tests harness0)) =
      [(''Alice'', alice\<lparr>websocket := Some (open_socket\<lparr>ws_closed := True\<rparr>)\<rparr>)]"
    using teardown_always_runs [of ?tests harness0] body closing
    by (simp del: run_steps.simps close_connected.simps)
  moreover have "snd (run_all_tests ?tests harness0) = Ok"
    using body by (simp add: run_all_tests_def del: run_steps.simps)
  ultimately show ?thesis
    using body a1 a2 o by blast
qed

end
